theory Spec2Isabelle
  imports Main "HOL-Library.Code_Target_Nat"
begin

section \<open>The IMAP lexer (lexer.go)\<close>

subsection \<open>Bytes, tokens and the cursor\<close>

text \<open>
  A Go \<open>byte\<close> is an unsigned 8-bit value and a Go \<open>string\<close> is a byte sequence, so a
  byte is a \<^typ>\<open>char\<close> and a string a \<^typ>\<open>string\<close>. The lexer only compares bytes
  (no arithmetic on them); order comparisons go through the byte's numeric value.
\<close>

type_synonym byte = char

abbreviation byteVal :: "byte \<Rightarrow> nat" where
  "byteVal \<equiv> of_char"

datatype tokenType = stringTokenType | eolTokenType | invalidTokenType

text \<open>The field \<open>value\<close> of the Go struct is called \<open>tokValue\<close> here.\<close>

record token =
  tokValue :: string
  tokType :: tokenType

definition invalidToken :: token where
  "invalidToken = \<lparr>tokValue = [], tokType = invalidTokenType\<rparr>"

definition eolToken :: token where
  "eolToken = \<lparr>tokValue = [], tokType = eolTokenType\<rparr>"

text \<open>The Ascii codes of the source (\<open>zero\<close> and \<open>plus\<close> carry a suffix).\<close>

abbreviation endOfInput :: byte where "endOfInput \<equiv> CHR 0x00"
abbreviation cr :: byte where "cr \<equiv> CHR 0x0D"
abbreviation lf :: byte where "lf \<equiv> CHR 0x0A"
abbreviation space :: byte where "space \<equiv> CHR 0x20"
abbreviation doubleQuote :: byte where "doubleQuote \<equiv> CHR 0x22"
abbreviation plus_byte :: byte where "plus_byte \<equiv> CHR 0x2B"
abbreviation zero_byte :: byte where "zero_byte \<equiv> CHR 0x30"
abbreviation nine :: byte where "nine \<equiv> CHR 0x39"
abbreviation leftCurly :: byte where "leftCurly \<equiv> CHR 0x7B"
abbreviation rightCurly :: byte where "rightCurly \<equiv> CHR 0x7D"
abbreviation leftParenthesis :: byte where "leftParenthesis \<equiv> CHR 0x28"
abbreviation rightParenthesis :: byte where "rightParenthesis \<equiv> CHR 0x29"
abbreviation rightBracket :: byte where "rightBracket \<equiv> CHR 0x5D"
abbreviation percent :: byte where "percent \<equiv> CHR 0x25"
abbreviation asterisk :: byte where "asterisk \<equiv> CHR 0x2A"
abbreviation backslash :: byte where "backslash \<equiv> CHR 0x5C"

definition astringExceptionsChar :: "byte list" where
  "astringExceptionsChar =
     [space, leftParenthesis, rightParenthesis, rightBracket, percent, asterisk, backslash,
      leftCurly]"

definition tagExceptionsChar :: "byte list" where
  "tagExceptionsChar =
     [space, leftParenthesis, rightParenthesis, rightBracket, percent, asterisk, backslash,
      leftCurly, plus_byte]"

definition listMailboxExceptionsChar :: "byte list" where
  "listMailboxExceptionsChar =
     [space, leftParenthesis, rightParenthesis, rightBracket, backslash, leftCurly]"

datatype unquotedLexerFlag = asAString | asTag | asListMailbox | asAny

text \<open>
  The \<open>bufio.Reader\<close> is the list of bytes not yet read; \<open>ReadByte\<close> takes the head and
  fails at the end of the list. \<open>current\<close> is the one byte of lookahead.
\<close>

record lexer =
  reader :: "byte list"
  current :: byte

text \<open>
  \<open>strconv\<close> reports a syntax error or a range error. Every failure of the lexer is a
  \<open>panic(parseError(msg))\<close>; one constructor stands for each message of the source:
  \<open>UnexpectedCharInQuotedString c\<close> for "Unexpected character c in quoted string",
  \<open>UnexpectedCharInLiteralLength c\<close> for "Unexpected character c in literal length",
  \<open>ParseIntFailed s e\<close> for the text of the \<open>strconv.ParseInt\<close> error on \<open>s\<close>,
  \<open>Expected name\<close> for "Expected name" and \<open>ReadFailed\<close> for the text of the error of
  \<open>ReadByte\<close>.
\<close>

datatype numError = ErrSyntax | ErrRange

datatype parseError =
    UnexpectedCharInQuotedString byte
  | UnexpectedCharInLiteralLength byte
  | ParseIntFailed string numError
  | Expected string
  | ReadFailed

text \<open>
  The lexer is mutated in place, so a panic leaves it in the state it had reached: a
  failure is \<open>Inl (e, l)\<close> with the lexer \<open>l\<close> at the moment of the panic, a normal
  return \<open>Inr\<close> of the result and the lexer after it.
\<close>

type_synonym 'a lexResult = "(parseError \<times> lexer) + 'a"

definition createLexer :: "byte list \<Rightarrow> lexer" where
  "createLexer inp = \<lparr>reader = inp, current = space\<rparr>"

subsection \<open>Moving the cursor\<close>

text \<open>
  \<open>consume\<close>: \<open>l.current, err = l.reader.ReadByte()\<close>, then a panic when the read
  failed. A failed \<open>ReadByte\<close> returns the byte 0, which is assigned before the panic.
\<close>

definition consume :: "lexer \<Rightarrow> lexer lexResult" where
  "consume l =
     (case reader l of
        [] \<Rightarrow> Inl (ReadFailed, l\<lparr>current := endOfInput\<rparr>)
      | b # bs \<Rightarrow> Inr (l\<lparr>reader := bs, current := b\<rparr>))"

definition skipSpace :: "lexer \<Rightarrow> lexer lexResult" where
  "skipSpace l = (if current l = space \<or> current l = lf then consume l else Inr l)"

function consumeEol :: "lexer \<Rightarrow> lexer lexResult" where
  "consumeEol l =
     (if current l \<noteq> lf
      then (case consume l of Inl e \<Rightarrow> Inl e | Inr l' \<Rightarrow> consumeEol l')
      else Inr l)"
  by pat_completeness auto
termination
  by (relation "measure (\<lambda>l. length (reader l))") (auto simp: consume_def split: list.splits)

subsection \<open>Quoted strings\<close>

function qstring_loop :: "lexer \<Rightarrow> byte list \<Rightarrow> (byte list \<times> lexer) lexResult" where
  "qstring_loop l buffer =
     (if current l \<noteq> doubleQuote
      then
        if current l = cr \<or> current l = lf
        then Inl (UnexpectedCharInQuotedString (current l), l)
        else if current l = backslash
        then (case consume l of
                Inl e \<Rightarrow> Inl e
              | Inr l1 \<Rightarrow>
                  (case consume l1 of
                     Inl e \<Rightarrow> Inl e
                   | Inr l2 \<Rightarrow> qstring_loop l2 (buffer @ [current l1])))
        else (case consume l of
                Inl e \<Rightarrow> Inl e
              | Inr l1 \<Rightarrow> qstring_loop l1 (buffer @ [current l]))
      else Inr (buffer, l))"
  by pat_completeness auto
termination
  by (relation "measure (\<lambda>(l, buffer). length (reader l))")
    (auto simp: consume_def split: list.splits)

definition qstring :: "lexer \<Rightarrow> (token \<times> lexer) lexResult" where
  "qstring l =
     (case qstring_loop l [] of
        Inl e \<Rightarrow> Inl e
      | Inr (buffer, l1) \<Rightarrow>
          (case consume l1 of
             Inl e \<Rightarrow> Inl e
           | Inr l2 \<Rightarrow> Inr (\<lparr>tokValue = buffer, tokType = stringTokenType\<rparr>, l2)))"

subsection \<open>Literals\<close>

text \<open>
  \<open>strconv.ParseInt(s, 10, 32)\<close> of the Go standard library: an empty string is a
  syntax error; one leading sign is taken off; \<open>ParseUint\<close> reads the rest digit by
  digit, a syntax error at the first byte that is not a decimal digit (and on an empty
  rest), a range error as soon as the value passes \<open>2^32 - 1\<close>; the unsigned value must
  then be below \<open>2^31\<close> (at most \<open>2^31\<close> after a minus sign), a range error otherwise.
\<close>

fun ParseUint_loop :: "nat \<Rightarrow> byte list \<Rightarrow> numError + nat" where
  "ParseUint_loop n [] = Inr n"
| "ParseUint_loop n (c # s) =
     (if byteVal c < byteVal zero_byte \<or> byteVal nine < byteVal c then Inl ErrSyntax
      else if n * 10 + (byteVal c - byteVal zero_byte) > 2 ^ 32 - 1 then Inl ErrRange
      else ParseUint_loop (n * 10 + (byteVal c - byteVal zero_byte)) s)"

definition ParseUint_10_32 :: "string \<Rightarrow> numError + nat" where
  "ParseUint_10_32 s = (if s = [] then Inl ErrSyntax else ParseUint_loop 0 s)"

definition ParseInt_10_32 :: "string \<Rightarrow> numError + int" where
  "ParseInt_10_32 s0 =
     (if s0 = [] then Inl ErrSyntax
      else
        let neg = (hd s0 = CHR ''-'');
            s = (if hd s0 = CHR ''+'' \<or> hd s0 = CHR ''-'' then tl s0 else s0)
        in (case ParseUint_10_32 s of
              Inl e \<Rightarrow> Inl e
            | Inr un \<Rightarrow>
                if \<not> neg \<and> un \<ge> 2 ^ 31 then Inl ErrRange
                else if neg \<and> un > 2 ^ 31 then Inl ErrRange
                else Inr (if neg then - int un else int un)))"

function literal_length_loop :: "lexer \<Rightarrow> byte list \<Rightarrow> (byte list \<times> lexer) lexResult" where
  "literal_length_loop l lengthBuffer =
     (if current l \<noteq> rightCurly
      then
        if byteVal (current l) < byteVal zero_byte \<or> byteVal (current l) > byteVal nine
        then Inl (UnexpectedCharInLiteralLength (current l), l)
        else (case consume l of
                Inl e \<Rightarrow> Inl e
              | Inr l1 \<Rightarrow> literal_length_loop l1 (lengthBuffer @ [current l]))
      else Inr (lengthBuffer, l))"
  by pat_completeness auto
termination
  by (relation "measure (\<lambda>(l, lengthBuffer). length (reader l))")
    (auto simp: consume_def split: list.splits)

text \<open>
  The loop \<open>for length > 0\<close>: append the current byte, count down, consume. The count is
  an \<open>int64\<close> between 0 and \<open>2^31 - 1\<close>, which only goes down.
\<close>

function literal_read_loop :: "int \<Rightarrow> lexer \<Rightarrow> byte list \<Rightarrow> (byte list \<times> lexer) lexResult" where
  "literal_read_loop len l buffer =
     (if len > 0
      then (case consume l of
              Inl e \<Rightarrow> Inl e
            | Inr l1 \<Rightarrow> literal_read_loop (len - 1) l1 (buffer @ [current l]))
      else Inr (buffer, l))"
  by pat_completeness auto
termination
  by (relation "measure (\<lambda>(len, l, buffer). nat len)") auto

definition literal :: "lexer \<Rightarrow> (token \<times> lexer) lexResult" where
  "literal l =
     (case literal_length_loop l [] of
        Inl e \<Rightarrow> Inl e
      | Inr (lengthBuffer, l1) \<Rightarrow>
          (case ParseInt_10_32 lengthBuffer of
             Inl err \<Rightarrow> Inl (ParseIntFailed lengthBuffer err, l1)
           | Inr len \<Rightarrow>
               (case consumeEol l1 of
                  Inl e \<Rightarrow> Inl e
                | Inr l2 \<Rightarrow>
                    (case literal_read_loop len l2 [] of
                       Inl e \<Rightarrow> Inl e
                     | Inr (buffer, l3) \<Rightarrow>
                         Inr (\<lparr>tokValue = buffer, tokType = stringTokenType\<rparr>, l3)))))"

subsection \<open>Unquoted strings\<close>

text \<open>
  \<open>bytes.IndexByte(exceptions, c)\<close> is \<open>-1\<close> exactly when \<open>c\<close> does not occur in
  \<open>exceptions\<close>; the \<open>nil\<close> slice of \<open>any\<close> is the empty list.
\<close>

function nonquoted_loop :: "byte list \<Rightarrow> lexer \<Rightarrow> byte list \<Rightarrow> (byte list \<times> lexer) lexResult" where
  "nonquoted_loop exceptions l buffer =
     (if byteVal (current l) > byteVal space \<and> current l \<notin> set exceptions \<and>
         byteVal (current l) < 0x7f
      then (case consume l of
              Inl e \<Rightarrow> Inl e
            | Inr l1 \<Rightarrow> nonquoted_loop exceptions l1 (buffer @ [current l]))
      else Inr (buffer, l))"
  by pat_completeness auto
termination
  by (relation "measure (\<lambda>(exceptions, l, buffer). length (reader l))")
    (auto simp: consume_def split: list.splits)

definition nonquoted :: "string \<Rightarrow> byte list \<Rightarrow> lexer \<Rightarrow> (token \<times> lexer) lexResult" where
  "nonquoted name exceptions l =
     (case nonquoted_loop exceptions l [] of
        Inl e \<Rightarrow> Inl e
      | Inr (buffer, l1) \<Rightarrow>
          if length buffer = 0 then Inl (Expected name, l1)
          else Inr (\<lparr>tokValue = buffer, tokType = stringTokenType\<rparr>, l1))"

definition astring :: "lexer \<Rightarrow> (token \<times> lexer) lexResult" where
  "astring l = nonquoted ''ASTRING'' astringExceptionsChar l"

definition tagString :: "lexer \<Rightarrow> (token \<times> lexer) lexResult" where
  "tagString l = nonquoted ''TAG'' tagExceptionsChar l"

definition listMailbox :: "lexer \<Rightarrow> (token \<times> lexer) lexResult" where
  "listMailbox l = nonquoted ''LIST-MAILBOX'' listMailboxExceptionsChar l"

definition any :: "lexer \<Rightarrow> (token \<times> lexer) lexResult" where
  "any l = nonquoted ''ANY'' [] l"

subsection \<open>The next token\<close>

text \<open>
  The method \<open>next\<close> of the source (\<open>next\<close> is a keyword of the proof language).
  The flag is one of the four constants; \<open>asAString\<close> takes the default branch.
\<close>

definition lexer_next :: "unquotedLexerFlag \<Rightarrow> lexer \<Rightarrow> (token \<times> lexer) lexResult" where
  "lexer_next flag l =
     (case skipSpace l of
        Inl e \<Rightarrow> Inl e
      | Inr l1 \<Rightarrow>
          if current l1 = cr
          then (case consumeEol l1 of Inl e \<Rightarrow> Inl e | Inr l2 \<Rightarrow> Inr (eolToken, l2))
          else if current l1 = doubleQuote
          then (case consume l1 of Inl e \<Rightarrow> Inl e | Inr l2 \<Rightarrow> qstring l2)
          else if current l1 = leftCurly
          then (case consume l1 of Inl e \<Rightarrow> Inl e | Inr l2 \<Rightarrow> literal l2)
          else (case flag of
                  asAny \<Rightarrow> any l1
                | asTag \<Rightarrow> tagString l1
                | asListMailbox \<Rightarrow> listMailbox l1
                | asAString \<Rightarrow> astring l1))"

subsection \<open>Vocabulary for stating the properties of the lexer\<close>

text \<open>
  These definitions are not code of the lexer; the theorems use them to describe its
  input. The body of a quoted string on the wire is a sequence of plain bytes and of
  escapes (a backslash and the byte it escapes): \<open>qencode\<close> is that body as bytes,
  \<open>qbyte\<close> the byte an item stands for. A plain byte is one that the quoted-string
  grammar lets stand for itself: not the double quote, the backslash, CR or LF.
\<close>

datatype qchar = Plain byte | Escaped byte

fun qencode :: "qchar list \<Rightarrow> byte list" where
  "qencode [] = []"
| "qencode (Plain b # items) = b # qencode items"
| "qencode (Escaped b # items) = backslash # b # qencode items"

fun qbyte :: "qchar \<Rightarrow> byte" where
  "qbyte (Plain b) = b"
| "qbyte (Escaped b) = b"

fun qvalid :: "qchar \<Rightarrow> bool" where
  "qvalid (Plain b) = (b \<noteq> doubleQuote \<and> b \<noteq> backslash \<and> b \<noteq> cr \<and> b \<noteq> lf)"
| "qvalid (Escaped b) = True"

text \<open>A decimal digit, and the number a run of decimal digits denotes.\<close>

definition isDigit :: "byte \<Rightarrow> bool" where
  "isDigit c = (byteVal zero_byte \<le> byteVal c \<and> byteVal c \<le> byteVal nine)"

definition decimalValue :: "byte list \<Rightarrow> nat" where
  "decimalValue ds = foldl (\<lambda>n c. n * 10 + (byteVal c - byteVal zero_byte)) 0 ds"

text \<open>The bytes strictly between space and DEL.\<close>

definition isGraphic :: "byte \<Rightarrow> bool" where
  "isGraphic c = (byteVal space < byteVal c \<and> byteVal c < 0x7f)"

section \<open>Sessions (session.go)\<close>

subsection \<open>The data\<close>

datatype state = notAuthenticated | authenticated | selected

text \<open>
  A Go \<open>error\<close> value is its message. The \<open>int64\<close> and \<open>int\<close> values of a session are
  only passed on and printed, never computed with: they are integers. The fields
  \<open>Name\<close> and \<open>Id\<close> of a \<open>Mailbox\<close> and \<open>id\<close> of a session carry a prefix.
\<close>

type_synonym error = string

record Mailbox =
  mbox_Name :: string
  mbox_Id :: int

text \<open>
  The interface \<open>Mailstore\<close> is the record of its methods. A Go method returns a pair
  of a value and an error, either of which may be \<open>nil\<close>; a \<open>*Mailbox\<close> is an option.
  The interface value itself is taken to be present (a \<open>nil\<close> Mailstore is not modelled).
\<close>

record Mailstore =
  GetMailbox :: "string \<Rightarrow> Mailbox option \<times> error option"
  FirstUnseen :: "int \<Rightarrow> int \<times> error option"
  TotalMessages :: "int \<Rightarrow> int \<times> error option"
  RecentMessages :: "int \<Rightarrow> int \<times> error option"
  NextUid :: "int \<Rightarrow> int \<times> error option"

text \<open>
  Modelled from the spec: the struct \<open>Config\<close> is declared outside session.go; the
  session uses its field \<open>Store\<close>, the Mailstore capability the core calls into.
\<close>

record Config =
  Store :: Mailstore

text \<open>
  Modelled from the spec: the struct \<open>response\<close> and its method \<open>extra\<close> are declared
  outside session.go. A response is a tag, a message and an ordered sequence of untagged
  lines, and \<open>extra\<close> appends one untagged line.
\<close>

record response =
  tag :: string
  message :: string
  untagged :: "string list"

definition extra :: "string \<Rightarrow> response \<Rightarrow> response" where
  "extra line resp = resp\<lparr>untagged := untagged resp @ [line]\<rparr>"

text \<open>The pointers \<open>mailbox\<close> and \<open>config\<close> of a session may be \<open>nil\<close>.\<close>

record session =
  session_id :: int
  st :: state
  mailbox :: "Mailbox option"
  config :: "Config option"

text \<open>Reading a field through a \<open>nil\<close> pointer is a run-time panic.\<close>

datatype goPanic = NilPointerDereference

definition createSession :: "int \<Rightarrow> Config option \<Rightarrow> session" where
  "createSession i cfg =
     \<lparr>session_id = i, st = notAuthenticated, mailbox = None, config = cfg\<rparr>"

subsection \<open>Selecting a mailbox\<close>

text \<open>The result is the returned pair and the session after the call.\<close>

definition selectMailbox ::
  "session \<Rightarrow> string \<Rightarrow> goPanic + ((bool \<times> error option) \<times> session)" where
  "selectMailbox s name =
     (case config s of
        None \<Rightarrow> Inl NilPointerDereference
      | Some cfg \<Rightarrow>
          (case GetMailbox (Store cfg) name of
             (mbox, err) \<Rightarrow>
               (case err of
                  Some e \<Rightarrow> Inr ((False, Some e), s)
                | None \<Rightarrow>
                    (case mbox of
                       None \<Rightarrow> Inr ((False, None), s)
                     | Some m \<Rightarrow> Inr ((True, None), s\<lparr>mailbox := Some m\<rparr>)))))"

subsection \<open>Mailbox information\<close>

text \<open>
  \<open>fmt\<close> prints an integer with the verb \<open>%d\<close>, and as an operand of \<open>Sprint\<close>, in
  decimal with a minus sign when negative; \<open>Sprint\<close> puts no space between two
  operands one of which is a string.
\<close>

fun formatNat :: "nat \<Rightarrow> string" where
  "formatNat n =
     (if n < 10 then [''0123456789'' ! n]
      else formatNat (n div 10) @ [''0123456789'' ! (n mod 10)])"

definition formatInt :: "int \<Rightarrow> string" where
  "formatInt i = (if i < 0 then CHR ''-'' # formatNat (nat (- i)) else formatNat (nat i))"

text \<open>
  The session is not changed by \<open>addMailboxInfo\<close>: the result is the returned error
  and the response after the call.
\<close>

definition addMailboxInfo :: "session \<Rightarrow> response \<Rightarrow> goPanic + (error option \<times> response)" where
  "addMailboxInfo s resp =
     (case config s of
        None \<Rightarrow> Inl NilPointerDereference
      | Some cfg \<Rightarrow>
          (case mailbox s of
             None \<Rightarrow> Inl NilPointerDereference
           | Some mb \<Rightarrow>
               (case FirstUnseen (Store cfg) (mbox_Id mb) of
                  (firstUnseen, Some err) \<Rightarrow> Inr (Some err, resp)
                | (firstUnseen, None) \<Rightarrow>
               (case TotalMessages (Store cfg) (mbox_Id mb) of
                  (totalMessages, Some err) \<Rightarrow> Inr (Some err, resp)
                | (totalMessages, None) \<Rightarrow>
               (case RecentMessages (Store cfg) (mbox_Id mb) of
                  (recentMessages, Some err) \<Rightarrow> Inr (Some err, resp)
                | (recentMessages, None) \<Rightarrow>
               (case NextUid (Store cfg) (mbox_Id mb) of
                  (nextUid, Some err) \<Rightarrow> Inr (Some err, resp)
                | (nextUid, None) \<Rightarrow>
                    Inr (None,
                      extra (''OK [UIDNEXT '' @ formatInt nextUid @ ''] Predicted next UID'')
                     (extra (''OK [UIDVALIDITY '' @ formatInt (mbox_Id mb) @ ''] UIDs valid'')
                     (extra (''OK [UNSEEN '' @ formatInt firstUnseen @ ''] Message '' @
                               formatInt firstUnseen @ '' is first unseen'')
                     (extra (formatInt recentMessages @ '' RECENT'')
                     (extra (formatInt totalMessages @ '' EXISTS'') resp)))))))))))"

subsection \<open>Reachable sessions\<close>

text \<open>
  The sessions that \<open>createSession\<close> followed by calls of \<open>selectMailbox\<close> and
  \<open>addMailboxInfo\<close> can produce. A call that panics produces none.
\<close>

inductive reachable :: "session \<Rightarrow> bool" where
  reach_create: "reachable (createSession i cfg)"
| reach_select: "reachable s \<Longrightarrow> selectMailbox s name = Inr (r, s') \<Longrightarrow> reachable s'"
| reach_info: "reachable s \<Longrightarrow> addMailboxInfo s resp = Inr (e, resp') \<Longrightarrow> reachable s"

text \<open>
  The dummy mailstore of command\_test.go: every name is the mailbox \<open>inbox\<close> with id 1,
  holding 8 messages, 4 of them recent, the first unseen one at 4 and the next UID 9.
\<close>

definition TestMailstore :: Mailstore where
  "TestMailstore =
     \<lparr>GetMailbox = (\<lambda>name. (Some \<lparr>mbox_Name = ''inbox'', mbox_Id = 1\<rparr>, None)),
      FirstUnseen = (\<lambda>mbox. (4, None)),
      TotalMessages = (\<lambda>mbox. (8, None)),
      RecentMessages = (\<lambda>mbox. (4, None)),
      NextUid = (\<lambda>mbox. (9, None))\<rparr>"

section \<open>Properties of sessions\<close>

declare formatNat.simps [simp del]

subsection \<open>Selecting a mailbox\<close>

text \<open>
  C1, as the code has it. When the Mailstore's \<open>GetMailbox\<close> returns a mailbox and no
  error, \<open>selectMailbox\<close> returns \<open>true\<close> with no error and stores the returned
  mailbox in the session. It assigns no other field: the state of the session is the
  one it had before the call, so the session is not moved to \<open>selected\<close>.
\<close>

theorem selectMailbox_sets_mailbox_only:
  "config s = Some cfg \<Longrightarrow> GetMailbox (Store cfg) name = (Some m, None) \<Longrightarrow>
   selectMailbox s name = Inr ((True, None), s\<lparr>mailbox := Some m\<rparr>) \<and>
   st (s\<lparr>mailbox := Some m\<rparr>) = st s"
  by (simp add: selectMailbox_def)

theorem selectMailbox_sets_mailbox_only_witness:
  "selectMailbox (createSession 1 (Some \<lparr>Store = TestMailstore\<rparr>)) ''inbox'' =
     Inr ((True, None),
          \<lparr>session_id = 1, st = notAuthenticated,
           mailbox = Some \<lparr>mbox_Name = ''inbox'', mbox_Id = 1\<rparr>,
           config = Some \<lparr>Store = TestMailstore\<rparr>\<rparr>)"
  using selectMailbox_sets_mailbox_only
    [of "createSession 1 (Some \<lparr>Store = TestMailstore\<rparr>)" "\<lparr>Store = TestMailstore\<rparr>"
        "''inbox''" "\<lparr>mbox_Name = ''inbox'', mbox_Id = 1\<rparr>"]
  by (simp add: createSession_def TestMailstore_def)

text \<open>
  C1 as stated fails: on a fresh session over the test mailstore, \<open>GetMailbox\<close> returns
  the mailbox \<open>inbox\<close>, \<open>selectMailbox\<close> returns \<open>true\<close> and stores it, and the
  state after the call is \<open>notAuthenticated\<close>, not \<open>selected\<close>.
\<close>

theorem selectMailbox_state_counterexample:
  "GetMailbox TestMailstore ''inbox'' = (Some \<lparr>mbox_Name = ''inbox'', mbox_Id = 1\<rparr>, None) \<and>
   selectMailbox (createSession 1 (Some \<lparr>Store = TestMailstore\<rparr>)) ''inbox'' =
     Inr ((True, None),
          \<lparr>session_id = 1, st = notAuthenticated,
           mailbox = Some \<lparr>mbox_Name = ''inbox'', mbox_Id = 1\<rparr>,
           config = Some \<lparr>Store = TestMailstore\<rparr>\<rparr>) \<and>
   notAuthenticated \<noteq> selected"
  by (simp add: selectMailbox_def createSession_def TestMailstore_def)

text \<open>
  C6. When \<open>GetMailbox\<close> returns an error (with or without a mailbox),
  \<open>selectMailbox\<close> returns \<open>false\<close> and that error, and the session after the call is
  the session before it. When \<open>GetMailbox\<close> returns no mailbox and no error,
  \<open>selectMailbox\<close> returns \<open>false\<close> and no error, and again the session (its state
  and its mailbox) is unchanged.
\<close>

theorem selectMailbox_failure_unchanged:
  "config s = Some cfg \<Longrightarrow>
   (GetMailbox (Store cfg) name = (mbox, Some err) \<longrightarrow>
      selectMailbox s name = Inr ((False, Some err), s)) \<and>
   (GetMailbox (Store cfg) name = (None, None) \<longrightarrow>
      selectMailbox s name = Inr ((False, None), s))"
  by (simp add: selectMailbox_def)

theorem selectMailbox_failure_unchanged_witness:
  "selectMailbox
     (createSession 1 (Some \<lparr>Store = TestMailstore\<lparr>GetMailbox := \<lambda>name. (None, Some ''store down'')\<rparr>\<rparr>))
     ''inbox'' =
   Inr ((False, Some ''store down''),
        createSession 1 (Some \<lparr>Store = TestMailstore\<lparr>GetMailbox := \<lambda>name. (None, Some ''store down'')\<rparr>\<rparr>)) \<and>
   selectMailbox
     (createSession 1 (Some \<lparr>Store = TestMailstore\<lparr>GetMailbox := \<lambda>name. (None, None)\<rparr>\<rparr>))
     ''nobox'' =
   Inr ((False, None),
        createSession 1 (Some \<lparr>Store = TestMailstore\<lparr>GetMailbox := \<lambda>name. (None, None)\<rparr>\<rparr>))"
  using selectMailbox_failure_unchanged
    [of "createSession 1 (Some \<lparr>Store = TestMailstore\<lparr>GetMailbox := \<lambda>name. (None, Some ''store down'')\<rparr>\<rparr>)"
        "\<lparr>Store = TestMailstore\<lparr>GetMailbox := \<lambda>name. (None, Some ''store down'')\<rparr>\<rparr>"
        "''inbox''" None "''store down''"]
    selectMailbox_failure_unchanged
    [of "createSession 1 (Some \<lparr>Store = TestMailstore\<lparr>GetMailbox := \<lambda>name. (None, None)\<rparr>\<rparr>)"
        "\<lparr>Store = TestMailstore\<lparr>GetMailbox := \<lambda>name. (None, None)\<rparr>\<rparr>"
        "''nobox''" None "''x''"]
  by (simp add: createSession_def)

subsection \<open>The state of a reachable session\<close>

lemma selectMailbox_st: "selectMailbox s name = Inr (r, s') \<Longrightarrow> st s' = st s"
  by (auto simp: selectMailbox_def split: option.splits prod.splits)

lemma selectMailbox_config: "selectMailbox s name = Inr (r, s') \<Longrightarrow> config s' = config s"
  by (auto simp: selectMailbox_def split: option.splits prod.splits)

lemma selectMailbox_mailbox:
  "selectMailbox s name = Inr (r, s') \<Longrightarrow> mailbox s' = Some m \<Longrightarrow>
   mailbox s = Some m \<or> (\<exists>cfg. config s = Some cfg \<and> GetMailbox (Store cfg) name = (Some m, None))"
  by (auto simp: selectMailbox_def split: option.splits prod.splits)

text \<open>
  C3, as the code has it. Every session reachable from \<open>createSession\<close> by calls of
  \<open>selectMailbox\<close> and \<open>addMailboxInfo\<close> is still in the state \<open>notAuthenticated\<close>
  (neither operation assigns the state), and a mailbox it holds is one that
  \<open>GetMailbox\<close> of its Mailstore returns for some name without an error.
\<close>

theorem reachable_state_notAuthenticated:
  "reachable s \<Longrightarrow>
   st s = notAuthenticated \<and>
   (\<forall>m. mailbox s = Some m \<longrightarrow>
      (\<exists>cfg name. config s = Some cfg \<and> GetMailbox (Store cfg) name = (Some m, None)))"
proof (induction rule: reachable.induct)
  case (reach_create i cfg)
  show ?case by (simp add: createSession_def)
next
  case (reach_select s name r s')
  from reach_select.hyps(2) have "st s' = st s" "config s' = config s"
    by (rule selectMailbox_st, rule selectMailbox_config)
  moreover have "\<exists>cfg name. config s = Some cfg \<and> GetMailbox (Store cfg) name = (Some m, None)"
    if "mailbox s' = Some m" for m
    using selectMailbox_mailbox [OF reach_select.hyps(2) that] reach_select.IH by blast
  ultimately show ?case using reach_select.IH by simp
next
  case (reach_info s resp e resp')
  then show ?case by simp
qed

theorem reachable_state_notAuthenticated_witness:
  "st \<lparr>session_id = 1, st = notAuthenticated,
       mailbox = Some \<lparr>mbox_Name = ''inbox'', mbox_Id = 1\<rparr>,
       config = Some \<lparr>Store = TestMailstore\<rparr>\<rparr> = notAuthenticated \<and>
   (\<exists>name. GetMailbox TestMailstore name = (Some \<lparr>mbox_Name = ''inbox'', mbox_Id = 1\<rparr>, None))"
proof -
  have sel: "selectMailbox (createSession 1 (Some \<lparr>Store = TestMailstore\<rparr>)) ''inbox'' =
     Inr ((True, None),
          \<lparr>session_id = 1, st = notAuthenticated,
           mailbox = Some \<lparr>mbox_Name = ''inbox'', mbox_Id = 1\<rparr>,
           config = Some \<lparr>Store = TestMailstore\<rparr>\<rparr>)"
    by (simp add: selectMailbox_def createSession_def TestMailstore_def)
  from reachable_state_notAuthenticated [OF reach_select [OF reach_create sel]]
  show ?thesis by simp
qed

text \<open>
  C3 as stated fails: the session reached from a fresh one by one successful
  \<open>selectMailbox\<close> holds a mailbox while its state is not \<open>selected\<close>.
\<close>

theorem reachable_mailbox_counterexample:
  "reachable \<lparr>session_id = 1, st = notAuthenticated,
              mailbox = Some \<lparr>mbox_Name = ''inbox'', mbox_Id = 1\<rparr>,
              config = Some \<lparr>Store = TestMailstore\<rparr>\<rparr> \<and>
   \<not> (mailbox \<lparr>session_id = 1, st = notAuthenticated,
              mailbox = Some \<lparr>mbox_Name = ''inbox'', mbox_Id = 1\<rparr>,
              config = Some \<lparr>Store = TestMailstore\<rparr>\<rparr> \<noteq> None \<longleftrightarrow>
      st \<lparr>session_id = 1, st = notAuthenticated,
              mailbox = Some \<lparr>mbox_Name = ''inbox'', mbox_Id = 1\<rparr>,
              config = Some \<lparr>Store = TestMailstore\<rparr>\<rparr> = selected)"
proof -
  have "selectMailbox (createSession 1 (Some \<lparr>Store = TestMailstore\<rparr>)) ''inbox'' =
     Inr ((True, None),
          \<lparr>session_id = 1, st = notAuthenticated,
           mailbox = Some \<lparr>mbox_Name = ''inbox'', mbox_Id = 1\<rparr>,
           config = Some \<lparr>Store = TestMailstore\<rparr>\<rparr>)"
    by (simp add: selectMailbox_def createSession_def TestMailstore_def)
  from reach_select [OF reach_create this] show ?thesis by simp
qed

subsection \<open>Mailbox information\<close>

text \<open>
  C4. When the session has a configuration and a mailbox and the four Mailstore queries
  return no error, \<open>addMailboxInfo\<close> returns no error and appends exactly five lines
  to the untagged lines of the response, in this order: the total with \<open>EXISTS\<close>, the
  recent count with \<open>RECENT\<close>, the \<open>UNSEEN\<close> line, the \<open>UIDVALIDITY\<close> line with the id
  of the mailbox, the \<open>UIDNEXT\<close> line. The witness is the test mailstore: first unseen
  4, total 8, recent 4, next UID 9, mailbox id 1.
\<close>

theorem addMailboxInfo_five_lines:
  assumes "config s = Some cfg" and "mailbox s = Some mb"
    and "FirstUnseen (Store cfg) (mbox_Id mb) = (firstUnseen, None)"
    and "TotalMessages (Store cfg) (mbox_Id mb) = (totalMessages, None)"
    and "RecentMessages (Store cfg) (mbox_Id mb) = (recentMessages, None)"
    and "NextUid (Store cfg) (mbox_Id mb) = (nextUid, None)"
  shows "addMailboxInfo s resp =
    Inr (None,
      resp\<lparr>untagged := untagged resp @
        [formatInt totalMessages @ '' EXISTS'',
         formatInt recentMessages @ '' RECENT'',
         ''OK [UNSEEN '' @ formatInt firstUnseen @ ''] Message '' @ formatInt firstUnseen @
           '' is first unseen'',
         ''OK [UIDVALIDITY '' @ formatInt (mbox_Id mb) @ ''] UIDs valid'',
         ''OK [UIDNEXT '' @ formatInt nextUid @ ''] Predicted next UID'']\<rparr>)"
  using assms by (simp add: addMailboxInfo_def extra_def)

theorem addMailboxInfo_five_lines_witness:
  "addMailboxInfo
     \<lparr>session_id = 1, st = notAuthenticated,
      mailbox = Some \<lparr>mbox_Name = ''inbox'', mbox_Id = 1\<rparr>,
      config = Some \<lparr>Store = TestMailstore\<rparr>\<rparr>
     \<lparr>tag = ''A00002'', message = ''SELECT completed'', untagged = []\<rparr> =
   Inr (None,
     \<lparr>tag = ''A00002'', message = ''SELECT completed'',
      untagged =
        [''8 EXISTS'',
         ''4 RECENT'',
         ''OK [UNSEEN 4] Message 4 is first unseen'',
         ''OK [UIDVALIDITY 1] UIDs valid'',
         ''OK [UIDNEXT 9] Predicted next UID'']\<rparr>)"
  using addMailboxInfo_five_lines
    [of "\<lparr>session_id = 1, st = notAuthenticated,
          mailbox = Some \<lparr>mbox_Name = ''inbox'', mbox_Id = 1\<rparr>,
          config = Some \<lparr>Store = TestMailstore\<rparr>\<rparr>"
        "\<lparr>Store = TestMailstore\<rparr>" "\<lparr>mbox_Name = ''inbox'', mbox_Id = 1\<rparr>"
        4 8 4 9 "\<lparr>tag = ''A00002'', message = ''SELECT completed'', untagged = []\<rparr>"]
  by (simp add: TestMailstore_def formatInt_def formatNat.simps)

text \<open>
  C5. The queries are made in the order \<open>FirstUnseen\<close>, \<open>TotalMessages\<close>,
  \<open>RecentMessages\<close>, \<open>NextUid\<close>. When one of them returns an error, the ones before
  it having returned none, \<open>addMailboxInfo\<close> returns that error and the response is
  the one it was given: no line is appended.
\<close>

theorem addMailboxInfo_error_all_or_nothing:
  assumes "config s = Some cfg" and "mailbox s = Some mb"
  shows
    "(FirstUnseen (Store cfg) (mbox_Id mb) = (firstUnseen, Some err) \<longrightarrow>
        addMailboxInfo s resp = Inr (Some err, resp)) \<and>
     (FirstUnseen (Store cfg) (mbox_Id mb) = (firstUnseen, None) \<and>
      TotalMessages (Store cfg) (mbox_Id mb) = (totalMessages, Some err) \<longrightarrow>
        addMailboxInfo s resp = Inr (Some err, resp)) \<and>
     (FirstUnseen (Store cfg) (mbox_Id mb) = (firstUnseen, None) \<and>
      TotalMessages (Store cfg) (mbox_Id mb) = (totalMessages, None) \<and>
      RecentMessages (Store cfg) (mbox_Id mb) = (recentMessages, Some err) \<longrightarrow>
        addMailboxInfo s resp = Inr (Some err, resp)) \<and>
     (FirstUnseen (Store cfg) (mbox_Id mb) = (firstUnseen, None) \<and>
      TotalMessages (Store cfg) (mbox_Id mb) = (totalMessages, None) \<and>
      RecentMessages (Store cfg) (mbox_Id mb) = (recentMessages, None) \<and>
      NextUid (Store cfg) (mbox_Id mb) = (nextUid, Some err) \<longrightarrow>
        addMailboxInfo s resp = Inr (Some err, resp))"
  using assms by (simp add: addMailboxInfo_def)

theorem addMailboxInfo_error_all_or_nothing_witness:
  "addMailboxInfo
     \<lparr>session_id = 1, st = notAuthenticated,
      mailbox = Some \<lparr>mbox_Name = ''inbox'', mbox_Id = 1\<rparr>,
      config = Some \<lparr>Store = TestMailstore\<lparr>FirstUnseen := \<lambda>mbox. (0, Some ''store down'')\<rparr>\<rparr>\<rparr>
     \<lparr>tag = ''A00002'', message = ''SELECT completed'', untagged = [''FLAGS ()'']\<rparr> =
   Inr (Some ''store down'',
     \<lparr>tag = ''A00002'', message = ''SELECT completed'', untagged = [''FLAGS ()'']\<rparr>) \<and>
   addMailboxInfo
     \<lparr>session_id = 1, st = notAuthenticated,
      mailbox = Some \<lparr>mbox_Name = ''inbox'', mbox_Id = 1\<rparr>,
      config = Some \<lparr>Store = TestMailstore\<lparr>TotalMessages := \<lambda>mbox. (0, Some ''store down'')\<rparr>\<rparr>\<rparr>
     \<lparr>tag = ''A00002'', message = ''SELECT completed'', untagged = [''FLAGS ()'']\<rparr> =
   Inr (Some ''store down'',
     \<lparr>tag = ''A00002'', message = ''SELECT completed'', untagged = [''FLAGS ()'']\<rparr>) \<and>
   addMailboxInfo
     \<lparr>session_id = 1, st = notAuthenticated,
      mailbox = Some \<lparr>mbox_Name = ''inbox'', mbox_Id = 1\<rparr>,
      config = Some \<lparr>Store = TestMailstore\<lparr>RecentMessages := \<lambda>mbox. (0, Some ''store down'')\<rparr>\<rparr>\<rparr>
     \<lparr>tag = ''A00002'', message = ''SELECT completed'', untagged = [''FLAGS ()'']\<rparr> =
   Inr (Some ''store down'',
     \<lparr>tag = ''A00002'', message = ''SELECT completed'', untagged = [''FLAGS ()'']\<rparr>) \<and>
   addMailboxInfo
     \<lparr>session_id = 1, st = notAuthenticated,
      mailbox = Some \<lparr>mbox_Name = ''inbox'', mbox_Id = 1\<rparr>,
      config = Some \<lparr>Store = TestMailstore\<lparr>NextUid := \<lambda>mbox. (0, Some ''store down'')\<rparr>\<rparr>\<rparr>
     \<lparr>tag = ''A00002'', message = ''SELECT completed'', untagged = [''FLAGS ()'']\<rparr> =
   Inr (Some ''store down'',
     \<lparr>tag = ''A00002'', message = ''SELECT completed'', untagged = [''FLAGS ()'']\<rparr>)"
  using
    addMailboxInfo_error_all_or_nothing
      [of "\<lparr>session_id = 1, st = notAuthenticated,
            mailbox = Some \<lparr>mbox_Name = ''inbox'', mbox_Id = 1\<rparr>,
            config = Some \<lparr>Store = TestMailstore\<lparr>FirstUnseen := \<lambda>mbox. (0, Some ''store down'')\<rparr>\<rparr>\<rparr>"
          "\<lparr>Store = TestMailstore\<lparr>FirstUnseen := \<lambda>mbox. (0, Some ''store down'')\<rparr>\<rparr>"
          "\<lparr>mbox_Name = ''inbox'', mbox_Id = 1\<rparr>" 0 "''store down''"
          "\<lparr>tag = ''A00002'', message = ''SELECT completed'', untagged = [''FLAGS ()'']\<rparr>"
          8 4 9]
    addMailboxInfo_error_all_or_nothing
      [of "\<lparr>session_id = 1, st = notAuthenticated,
            mailbox = Some \<lparr>mbox_Name = ''inbox'', mbox_Id = 1\<rparr>,
            config = Some \<lparr>Store = TestMailstore\<lparr>TotalMessages := \<lambda>mbox. (0, Some ''store down'')\<rparr>\<rparr>\<rparr>"
          "\<lparr>Store = TestMailstore\<lparr>TotalMessages := \<lambda>mbox. (0, Some ''store down'')\<rparr>\<rparr>"
          "\<lparr>mbox_Name = ''inbox'', mbox_Id = 1\<rparr>" 4 "''store down''"
          "\<lparr>tag = ''A00002'', message = ''SELECT completed'', untagged = [''FLAGS ()'']\<rparr>"
          0 4 9]
    addMailboxInfo_error_all_or_nothing
      [of "\<lparr>session_id = 1, st = notAuthenticated,
            mailbox = Some \<lparr>mbox_Name = ''inbox'', mbox_Id = 1\<rparr>,
            config = Some \<lparr>Store = TestMailstore\<lparr>RecentMessages := \<lambda>mbox. (0, Some ''store down'')\<rparr>\<rparr>\<rparr>"
          "\<lparr>Store = TestMailstore\<lparr>RecentMessages := \<lambda>mbox. (0, Some ''store down'')\<rparr>\<rparr>"
          "\<lparr>mbox_Name = ''inbox'', mbox_Id = 1\<rparr>" 4 "''store down''"
          "\<lparr>tag = ''A00002'', message = ''SELECT completed'', untagged = [''FLAGS ()'']\<rparr>"
          8 0 9]
    addMailboxInfo_error_all_or_nothing
      [of "\<lparr>session_id = 1, st = notAuthenticated,
            mailbox = Some \<lparr>mbox_Name = ''inbox'', mbox_Id = 1\<rparr>,
            config = Some \<lparr>Store = TestMailstore\<lparr>NextUid := \<lambda>mbox. (0, Some ''store down'')\<rparr>\<rparr>\<rparr>"
          "\<lparr>Store = TestMailstore\<lparr>NextUid := \<lambda>mbox. (0, Some ''store down'')\<rparr>\<rparr>"
          "\<lparr>mbox_Name = ''inbox'', mbox_Id = 1\<rparr>" 4 "''store down''"
          "\<lparr>tag = ''A00002'', message = ''SELECT completed'', untagged = [''FLAGS ()'']\<rparr>"
          8 4 0]
  by (simp add: TestMailstore_def)

section \<open>Properties of the lexer\<close>

text \<open>
  The loops are unfolded by hand: one step at a time in the proofs by induction, all the
  way on a concrete input.
\<close>

declare consumeEol.simps [simp del] qstring_loop.simps [simp del]
  literal_length_loop.simps [simp del] literal_read_loop.simps [simp del]
  nonquoted_loop.simps [simp del]

lemma consume_Cons:
  "consume \<lparr>reader = b # bs, current = c\<rparr> = Inr \<lparr>reader = bs, current = b\<rparr>"
  by (simp add: consume_def)

lemma consume_Nil:
  "consume \<lparr>reader = [], current = c\<rparr> =
   Inl (ReadFailed, \<lparr>reader = [], current = endOfInput\<rparr>)"
  by (simp add: consume_def)

lemma skipSpace_createLexer:
  "skipSpace (createLexer (b # bs)) = Inr \<lparr>reader = bs, current = b\<rparr>"
  by (simp add: skipSpace_def createLexer_def consume_Cons)

subsection \<open>Quoted strings\<close>

text \<open>
  The loop of \<open>qstring\<close> on an encoded body followed by the closing quote: it stops at
  the quote with the decoded bytes in the buffer.
\<close>

lemma qstring_loop_encoded:
  "\<forall>i \<in> set items. qvalid i \<Longrightarrow> c # r = qencode items @ doubleQuote # rest \<Longrightarrow>
   qstring_loop \<lparr>reader = r, current = c\<rparr> buf =
   Inr (buf @ map qbyte items, \<lparr>reader = rest, current = doubleQuote\<rparr>)"
proof (induction items arbitrary: c r buf)
  case Nil
  then show ?case by (simp add: qstring_loop.simps)
next
  case (Cons i items)
  obtain c' r' where s': "c' # r' = qencode items @ doubleQuote # rest"
    by (cases "qencode items") auto
  have IH: "qstring_loop \<lparr>reader = r', current = c'\<rparr> buf' =
      Inr (buf' @ map qbyte items, \<lparr>reader = rest, current = doubleQuote\<rparr>)" for buf'
    using Cons.IH [OF _ s'] Cons.prems(1) by simp
  show ?case
  proof (cases i)
    case (Plain b)
    with Cons.prems s' have "c = b" "r = c' # r'" by simp_all
    moreover from Plain Cons.prems(1)
    have "b \<noteq> doubleQuote" "b \<noteq> backslash" "b \<noteq> cr" "b \<noteq> lf" by simp_all
    ultimately show ?thesis
      using Plain by (subst qstring_loop.simps) (simp add: consume_Cons IH)
  next
    case (Escaped b)
    with Cons.prems s' have "c = backslash" "r = b # c' # r'" by simp_all
    then show ?thesis
      using Escaped by (subst qstring_loop.simps) (simp add: consume_Cons IH)
  qed
qed

text \<open>
  C7, as the code has it. When the byte after the skipped one is a double quote, and it
  is followed by a body of plain bytes and escapes, the closing quote and at least one
  more byte \<open>b\<close>, the lexer returns the string token whose value is the body with
  each escape replaced by the byte after the backslash, whatever that byte is (a quote,
  a backslash, CR and LF included). The closing quote is consumed and is not part of the
  value: the cursor is on \<open>b\<close>. The byte \<open>b\<close> has to be there, since the lexer reads
  one byte past the closing quote. The witness is the two examples of the claim,
  followed by CR LF.
\<close>

theorem qstring_unescapes:
  assumes "skipSpace l = Inr l1" and "current l1 = doubleQuote"
    and "reader l1 = qencode items @ doubleQuote # b # rest"
    and "\<forall>i \<in> set items. qvalid i"
  shows "lexer_next flag l =
     Inr (\<lparr>tokValue = map qbyte items, tokType = stringTokenType\<rparr>,
          \<lparr>reader = rest, current = b\<rparr>)"
proof -
  obtain c r where cr: "c # r = qencode items @ doubleQuote # b # rest"
    by (cases "qencode items") auto
  have l1: "l1 = \<lparr>reader = c # r, current = doubleQuote\<rparr>"
    using assms(2,3) cr by (cases l1) simp
  have "qstring \<lparr>reader = r, current = c\<rparr> =
     Inr (\<lparr>tokValue = map qbyte items, tokType = stringTokenType\<rparr>,
          \<lparr>reader = rest, current = b\<rparr>)"
    using qstring_loop_encoded [OF assms(4) cr, of "[]"]
    by (simp add: qstring_def consume_Cons)
  then show ?thesis
    using assms(1) by (simp add: lexer_next_def l1 consume_Cons)
qed

theorem qstring_unescapes_witness:
  "lexer_next asAString (createLexer ([doubleQuote, CHR ''a'', backslash, doubleQuote, CHR ''b'', doubleQuote, cr, lf])) =
     Inr (\<lparr>tokValue = [CHR ''a'', doubleQuote, CHR ''b''], tokType = stringTokenType\<rparr>,
          \<lparr>reader = [lf], current = cr\<rparr>) \<and>
   lexer_next asAString (createLexer (doubleQuote # ''plain'' @ [doubleQuote, cr, lf])) =
     Inr (\<lparr>tokValue = ''plain'', tokType = stringTokenType\<rparr>,
          \<lparr>reader = [lf], current = cr\<rparr>)"
  using
    qstring_unescapes
      [of "createLexer ([doubleQuote, CHR ''a'', backslash, doubleQuote, CHR ''b'', doubleQuote, cr, lf])"
          "\<lparr>reader = [CHR ''a'', backslash, doubleQuote, CHR ''b'', doubleQuote, cr, lf], current = doubleQuote\<rparr>"
          "[Plain (CHR ''a''), Escaped doubleQuote, Plain (CHR ''b'')]" cr "[lf]" asAString]
    qstring_unescapes
      [of "createLexer (doubleQuote # ''plain'' @ [doubleQuote, cr, lf])"
          "\<lparr>reader = ''plain'' @ [doubleQuote, cr, lf], current = doubleQuote\<rparr>"
          "map Plain ''plain''" cr "[lf]" asAString]
  by (simp add: skipSpace_createLexer)

text \<open>
  C7 as stated fails on its own examples when nothing follows the closing quote: the
  read of the lookahead byte past the closing quote fails, and the lexer panics with a
  parse error instead of returning the token.
\<close>

theorem qstring_end_of_input_counterexample:
  "lexer_next asAString (createLexer (doubleQuote # ''plain'' @ [doubleQuote])) =
     Inl (ReadFailed, \<lparr>reader = [], current = endOfInput\<rparr>) \<and>
   lexer_next asAString (createLexer [doubleQuote, CHR ''a'', backslash, doubleQuote, CHR ''b'', doubleQuote]) =
     Inl (ReadFailed, \<lparr>reader = [], current = endOfInput\<rparr>)"
  by (simp add: lexer_next_def createLexer_def skipSpace_def consume_Cons consume_Nil
      qstring_def qstring_loop.simps)

subsection \<open>Unquoted strings\<close>

lemma nonquoted_loop_stops:
  "\<not> (isGraphic (current l) \<and> current l \<notin> set exceptions) \<Longrightarrow>
   nonquoted_loop exceptions l buf = Inr (buf, l)"
  by (subst nonquoted_loop.simps) (auto simp: isGraphic_def)

text \<open>
  C8. Whatever the name and the exception set (so in each of the four modes, which are
  \<open>nonquoted\<close> with their own name and set): when the current byte is at most the
  space, is DEL or higher, or is in the exception set, the unquoted scan panics with
  the parse error "Expected name", without moving the cursor; and when the scan
  returns a token, the value of the token is not empty.
\<close>

theorem nonquoted_never_empty:
  "(byteVal (current l) \<le> byteVal space \<or> 0x7f \<le> byteVal (current l) \<or>
      current l \<in> set exceptions \<longrightarrow>
      nonquoted name exceptions l = Inl (Expected name, l)) \<and>
   (\<forall>t l'. nonquoted name exceptions l = Inr (t, l') \<longrightarrow> tokValue t \<noteq> [])"
proof
  show "byteVal (current l) \<le> byteVal space \<or> 0x7f \<le> byteVal (current l) \<or>
      current l \<in> set exceptions \<longrightarrow>
      nonquoted name exceptions l = Inl (Expected name, l)"
  proof
    assume "byteVal (current l) \<le> byteVal space \<or> 0x7f \<le> byteVal (current l) \<or>
      current l \<in> set exceptions"
    then have "\<not> (isGraphic (current l) \<and> current l \<notin> set exceptions)"
      by (auto simp: isGraphic_def)
    then show "nonquoted name exceptions l = Inl (Expected name, l)"
      by (simp add: nonquoted_def nonquoted_loop_stops)
  qed
  show "\<forall>t l'. nonquoted name exceptions l = Inr (t, l') \<longrightarrow> tokValue t \<noteq> []"
    by (auto simp: nonquoted_def split: sum.splits prod.splits if_splits)
qed

theorem nonquoted_never_empty_witness:
  "nonquoted ''TAG'' tagExceptionsChar \<lparr>reader = ''CAPABILITY'', current = space\<rparr> =
     Inl (Expected ''TAG'', \<lparr>reader = ''CAPABILITY'', current = space\<rparr>) \<and>
   nonquoted ''ASTRING'' astringExceptionsChar \<lparr>reader = ''x'', current = percent\<rparr> =
     Inl (Expected ''ASTRING'', \<lparr>reader = ''x'', current = percent\<rparr>) \<and>
   nonquoted ''ANY'' [] \<lparr>reader = ''x'', current = CHR 0x7F\<rparr> =
     Inl (Expected ''ANY'', \<lparr>reader = ''x'', current = CHR 0x7F\<rparr>) \<and>
   nonquoted ''TAG'' tagExceptionsChar \<lparr>reader = ''00001 CAPABILITY'', current = CHR ''A''\<rparr> =
     Inr (\<lparr>tokValue = ''A00001'', tokType = stringTokenType\<rparr>,
          \<lparr>reader = ''CAPABILITY'', current = space\<rparr>) \<and>
   tokValue \<lparr>tokValue = ''A00001'', tokType = stringTokenType\<rparr> \<noteq> []"
  using
    nonquoted_never_empty [of "\<lparr>reader = ''CAPABILITY'', current = space\<rparr>" tagExceptionsChar "''TAG''"]
    nonquoted_never_empty [of "\<lparr>reader = ''x'', current = percent\<rparr>" astringExceptionsChar "''ASTRING''"]
    nonquoted_never_empty [of "\<lparr>reader = ''x'', current = CHR 0x7F\<rparr>" "[]" "''ANY''"]
    nonquoted_never_empty [of "\<lparr>reader = ''00001 CAPABILITY'', current = CHR ''A''\<rparr>" tagExceptionsChar "''TAG''"]
  by (simp add: tagExceptionsChar_def astringExceptionsChar_def nonquoted_def
      nonquoted_loop.simps consume_Cons)

lemma nonquoted_loop_run:
  "\<forall>c \<in> set run. isGraphic c \<and> c \<notin> set exceptions \<Longrightarrow>
   \<not> (isGraphic b \<and> b \<notin> set exceptions) \<Longrightarrow> c # r = run @ b # rest \<Longrightarrow>
   nonquoted_loop exceptions \<lparr>reader = r, current = c\<rparr> buf =
   Inr (buf @ run, \<lparr>reader = rest, current = b\<rparr>)"
proof (induction run arbitrary: c r buf)
  case Nil
  then show ?case by (simp add: nonquoted_loop_stops)
next
  case (Cons x run)
  obtain c' r' where s': "c' # r' = run @ b # rest"
    by (cases run) auto
  from Cons.prems s' have "c = x" "r = c' # r'" by simp_all
  moreover from Cons.prems(1) have "isGraphic x" "x \<notin> set exceptions" by simp_all
  moreover have "nonquoted_loop exceptions \<lparr>reader = r', current = c'\<rparr> (buf @ [x]) =
      Inr ((buf @ [x]) @ run, \<lparr>reader = rest, current = b\<rparr>)"
    using Cons.IH [OF _ Cons.prems(2) s'] Cons.prems(1) by simp
  ultimately show ?case
    by (subst nonquoted_loop.simps) (simp add: consume_Cons isGraphic_def)
qed

text \<open>
  C9, as the code has it. In the mode \<open>asAny\<close> the exception set is empty. When the
  bytes from the first non-skipped one on are a non-empty run of bytes strictly
  between space and DEL, followed by a byte \<open>b\<close> that is not one, and the run starts
  with neither a double quote nor an opening brace, the lexer returns the string token
  whose value is the whole run, with the cursor on \<open>b\<close>. Every byte of the exception
  sets of the three other modes, the space apart, is strictly between space and DEL, so
  it is part of the token when it occurs in the run. The witness is a run that holds the
  parentheses, the closing bracket, the percent sign, the asterisk, the backslash, both
  braces and the plus sign.
\<close>

theorem any_maximal_graphic_run:
  assumes "skipSpace l = Inr l1"
    and "current l1 # reader l1 = run @ b # rest"
    and "run \<noteq> []" and "\<forall>c \<in> set run. isGraphic c" and "\<not> isGraphic b"
    and "hd run \<noteq> doubleQuote" and "hd run \<noteq> leftCurly"
  shows "lexer_next asAny l =
     Inr (\<lparr>tokValue = run, tokType = stringTokenType\<rparr>, \<lparr>reader = rest, current = b\<rparr>) \<and>
   (\<forall>c \<in> set astringExceptionsChar \<union> set tagExceptionsChar \<union> set listMailboxExceptionsChar.
      c \<noteq> space \<longrightarrow> isGraphic c)"
proof
  obtain c r where l1: "l1 = \<lparr>reader = r, current = c\<rparr>" by (cases l1) simp
  from assms(2) l1 have s: "c # r = run @ b # rest" by simp
  with assms(3) have hd: "c = hd run" by (cases run) auto
  with assms(3,4) have "isGraphic c" by (cases run) auto
  then have "c \<noteq> cr" by (auto simp: isGraphic_def)
  have "nonquoted_loop [] \<lparr>reader = r, current = c\<rparr> [] =
      Inr (run, \<lparr>reader = rest, current = b\<rparr>)"
    using nonquoted_loop_run [of run "[]" b c r rest "[]"] s assms(4,5) by simp
  then have "any l1 =
      Inr (\<lparr>tokValue = run, tokType = stringTokenType\<rparr>, \<lparr>reader = rest, current = b\<rparr>)"
    using assms(3) by (simp add: any_def nonquoted_def l1)
  then show "lexer_next asAny l =
     Inr (\<lparr>tokValue = run, tokType = stringTokenType\<rparr>, \<lparr>reader = rest, current = b\<rparr>)"
    using assms(1,6,7) hd \<open>c \<noteq> cr\<close> by (simp add: lexer_next_def l1)
  show "\<forall>c \<in> set astringExceptionsChar \<union> set tagExceptionsChar \<union> set listMailboxExceptionsChar.
      c \<noteq> space \<longrightarrow> isGraphic c"
    by (auto simp: astringExceptionsChar_def tagExceptionsChar_def
        listMailboxExceptionsChar_def isGraphic_def)
qed

theorem any_maximal_graphic_run_witness:
  "lexer_next asAny (createLexer (''a(b)]%*'' @ [backslash] @ ''{c}+ x'')) =
     Inr (\<lparr>tokValue = ''a(b)]%*'' @ [backslash] @ ''{c}+'', tokType = stringTokenType\<rparr>,
          \<lparr>reader = ''x'', current = space\<rparr>) \<and>
   isGraphic percent \<and> isGraphic plus_byte"
  using any_maximal_graphic_run
    [of "createLexer (''a(b)]%*'' @ [backslash] @ ''{c}+ x'')"
        "\<lparr>reader = ''(b)]%*'' @ [backslash] @ ''{c}+ x'', current = CHR ''a''\<rparr>"
        "''a(b)]%*'' @ [backslash] @ ''{c}+''" space "''x''"]
  by (simp add: skipSpace_createLexer isGraphic_def)

text \<open>
  C9 as stated fails. A first byte that is not CR, a double quote or an opening brace
  may still be outside the range of the scan (here a TAB): the run is empty and the
  lexer panics with "Expected ANY". And a run that reaches the end of the input ends in
  the panic of the failed read, not in a token.
\<close>

theorem any_no_token_counterexample:
  "CHR 0x09 \<noteq> cr \<and> CHR 0x09 \<noteq> doubleQuote \<and> CHR 0x09 \<noteq> leftCurly \<and>
   lexer_next asAny (createLexer (CHR 0x09 # ''A00001 CAPABILITY'' @ [cr, lf])) =
     Inl (Expected ''ANY'',
          \<lparr>reader = ''A00001 CAPABILITY'' @ [cr, lf], current = CHR 0x09\<rparr>) \<and>
   lexer_next asAny (createLexer ''NOOP'') =
     Inl (ReadFailed, \<lparr>reader = [], current = endOfInput\<rparr>)"
  by (simp add: lexer_next_def createLexer_def skipSpace_def consume_Cons consume_Nil
      any_def nonquoted_def nonquoted_loop.simps)

subsection \<open>Literals\<close>

lemma isDigit_not_special:
  "isDigit c \<Longrightarrow> c \<noteq> rightCurly \<and> c \<noteq> CHR ''+'' \<and> c \<noteq> CHR ''-''"
  by (auto simp: isDigit_def)

lemma literal_length_loop_digits:
  "\<forall>c \<in> set ds. isDigit c \<Longrightarrow> c # r = ds @ rightCurly # rest \<Longrightarrow>
   literal_length_loop \<lparr>reader = r, current = c\<rparr> buf =
   Inr (buf @ ds, \<lparr>reader = rest, current = rightCurly\<rparr>)"
proof (induction ds arbitrary: c r buf)
  case Nil
  then show ?case by (simp add: literal_length_loop.simps)
next
  case (Cons d ds)
  obtain c' r' where s': "c' # r' = ds @ rightCurly # rest"
    by (cases ds) auto
  from Cons.prems s' have "c = d" "r = c' # r'" by simp_all
  moreover from Cons.prems(1) have "isDigit d" by simp
  moreover have "literal_length_loop \<lparr>reader = r', current = c'\<rparr> (buf @ [d]) =
      Inr ((buf @ [d]) @ ds, \<lparr>reader = rest, current = rightCurly\<rparr>)"
    using Cons.IH [OF _ s'] Cons.prems(1) by simp
  ultimately show ?case
    using isDigit_not_special [of d]
    by (subst literal_length_loop.simps) (auto simp: consume_Cons isDigit_def)
qed

lemma foldl_decimal_mono:
  "n \<le> foldl (\<lambda>n c. n * 10 + (byteVal c - byteVal zero_byte)) n ds"
proof (induction ds arbitrary: n)
  case Nil
  show ?case by simp
next
  case (Cons d ds)
  have "n \<le> n * 10 + (byteVal d - byteVal zero_byte)" by simp
  also have "\<dots> \<le> foldl (\<lambda>n c. n * 10 + (byteVal c - byteVal zero_byte))
      (n * 10 + (byteVal d - byteVal zero_byte)) ds"
    by (rule Cons.IH)
  finally show ?case by simp
qed

lemma ParseUint_loop_digits:
  "\<forall>c \<in> set ds. isDigit c \<Longrightarrow> n \<le> 2 ^ 32 - 1 \<Longrightarrow>
   ParseUint_loop n ds =
     (if foldl (\<lambda>n c. n * 10 + (byteVal c - byteVal zero_byte)) n ds > 2 ^ 32 - 1
      then Inl ErrRange
      else Inr (foldl (\<lambda>n c. n * 10 + (byteVal c - byteVal zero_byte)) n ds))"
proof (induction ds arbitrary: n)
  case Nil
  then show ?case by simp
next
  case (Cons d ds)
  let ?n1 = "n * 10 + (byteVal d - byteVal zero_byte)"
  from Cons.prems have d: "\<not> (byteVal d < byteVal zero_byte \<or> byteVal nine < byteVal d)"
    by (auto simp: isDigit_def)
  show ?case
  proof (cases "?n1 > 2 ^ 32 - 1")
    case True
    moreover have "?n1 \<le> foldl (\<lambda>n c. n * 10 + (byteVal c - byteVal zero_byte)) ?n1 ds"
      by (rule foldl_decimal_mono)
    ultimately have "foldl (\<lambda>n c. n * 10 + (byteVal c - byteVal zero_byte)) ?n1 ds > 2 ^ 32 - 1"
      by linarith
    with True d show ?thesis by simp
  next
    case False
    with d Cons.IH [of ?n1] Cons.prems show ?thesis by simp
  qed
qed

lemma ParseInt_10_32_digits:
  assumes "\<forall>c \<in> set ds. isDigit c"
  shows "ParseInt_10_32 ds =
     (if ds = [] then Inl ErrSyntax
      else if decimalValue ds > 2 ^ 31 - 1 then Inl ErrRange
      else Inr (int (decimalValue ds)))"
proof (cases ds)
  case Nil
  then show ?thesis by (simp add: ParseInt_10_32_def)
next
  case (Cons d ds')
  with assms have "isDigit d" by simp
  then have "d \<noteq> CHR ''+''" "d \<noteq> CHR ''-''" using isDigit_not_special [of d] by simp_all
  then show ?thesis
    using Cons ParseUint_loop_digits [OF assms, of 0]
    by (auto simp: ParseInt_10_32_def ParseUint_10_32_def decimalValue_def Let_def)
qed

text \<open>
  C10. When the byte after the skipped one is an opening brace followed by a run of
  decimal digits and the closing brace, and the run is empty or denotes a number above
  \<open>2^31 - 1\<close>, the lexer panics with the error of \<open>strconv.ParseInt\<close> (a syntax
  error on the empty run, a range error otherwise). At the panic the cursor is still on
  the closing brace and everything after the brace is unread, whatever it is (nothing
  at all included).
\<close>

theorem literal_length_rejected:
  assumes "skipSpace l = Inr l1" and "current l1 = leftCurly"
    and "reader l1 = ds @ rightCurly # rest"
    and "\<forall>c \<in> set ds. isDigit c"
    and "ds = [] \<or> decimalValue ds > 2 ^ 31 - 1"
  shows "lexer_next flag l =
     Inl (ParseIntFailed ds (if ds = [] then ErrSyntax else ErrRange),
          \<lparr>reader = rest, current = rightCurly\<rparr>)"
proof -
  obtain c r where cr: "c # r = ds @ rightCurly # rest"
    by (cases ds) auto
  have l1: "l1 = \<lparr>reader = c # r, current = leftCurly\<rparr>"
    using assms(2,3) cr by (cases l1) simp
  have "literal \<lparr>reader = r, current = c\<rparr> =
     Inl (ParseIntFailed ds (if ds = [] then ErrSyntax else ErrRange),
          \<lparr>reader = rest, current = rightCurly\<rparr>)"
    using literal_length_loop_digits [OF assms(4) cr, of "[]"] assms(5)
    by (auto simp: literal_def ParseInt_10_32_digits [OF assms(4)])
  then show ?thesis
    using assms(1) by (simp add: lexer_next_def l1 consume_Cons)
qed

theorem literal_length_rejected_witness:
  "lexer_next asAString (createLexer (''{2147483648}'' @ [cr, lf] @ ''body'')) =
     Inl (ParseIntFailed ''2147483648'' ErrRange,
          \<lparr>reader = [cr, lf] @ ''body'', current = rightCurly\<rparr>) \<and>
   lexer_next asAString (createLexer (''{}'' @ [cr, lf] @ ''body'')) =
     Inl (ParseIntFailed [] ErrSyntax,
          \<lparr>reader = [cr, lf] @ ''body'', current = rightCurly\<rparr>)"
  using
    literal_length_rejected
      [of "createLexer (''{2147483648}'' @ [cr, lf] @ ''body'')"
          "\<lparr>reader = ''2147483648}'' @ [cr, lf] @ ''body'', current = leftCurly\<rparr>"
          "''2147483648''" "[cr, lf] @ ''body''" asAString]
    literal_length_rejected
      [of "createLexer (''{}'' @ [cr, lf] @ ''body'')"
          "\<lparr>reader = ''}'' @ [cr, lf] @ ''body'', current = leftCurly\<rparr>"
          "[]" "[cr, lf] @ ''body''" asAString]
  by (simp add: skipSpace_createLexer isDigit_def decimalValue_def)

text \<open>
  C2, at the input of the claim. On \<open>{11}\<close>, CR, LF, \<open>hello world\<close> the lexer returns
  a token of 11 bytes that starts with the LF of the line end and stops before the last
  byte of the body: \<open>consumeEol\<close> leaves the cursor on the LF, and the loop that reads
  the literal starts from the cursor. The claim says the value is \<open>hello world\<close>.
\<close>

theorem literal_takes_linefeed_first:
  "lexer_next asAString (createLexer (''{11}'' @ [cr, lf] @ ''hello world'')) =
     Inr (\<lparr>tokValue = lf # ''hello worl'', tokType = stringTokenType\<rparr>,
          \<lparr>reader = [], current = CHR ''d''\<rparr>)"
  by (simp add: lexer_next_def createLexer_def skipSpace_def consume_Cons consume_Nil
      literal_def ParseInt_10_32_def ParseUint_10_32_def literal_length_loop.simps
      consumeEol.simps literal_read_loop.simps)

lemma consumeEol_to_linefeed:
  "lf \<notin> set junk \<Longrightarrow> c # r = junk @ lf # body \<Longrightarrow>
   consumeEol \<lparr>reader = r, current = c\<rparr> = Inr \<lparr>reader = body, current = lf\<rparr>"
proof (induction junk arbitrary: c r)
  case Nil
  then show ?case by (simp add: consumeEol.simps)
next
  case (Cons x junk)
  obtain c' r' where s': "c' # r' = junk @ lf # body"
    by (cases junk) auto
  from Cons.prems s' have "c = x" "r = c' # r'" "x \<noteq> lf" by auto
  moreover have "consumeEol \<lparr>reader = r', current = c'\<rparr> = Inr \<lparr>reader = body, current = lf\<rparr>"
    using Cons.IH [OF _ s'] Cons.prems(1) by simp
  ultimately show ?case
    by (subst consumeEol.simps) (simp add: consume_Cons)
qed

lemma literal_read_loop_take:
  "k \<le> length r \<Longrightarrow>
   literal_read_loop (int k) \<lparr>reader = r, current = c\<rparr> buf =
   Inr (buf @ take k (c # r), \<lparr>reader = drop k r, current = (c # r) ! k\<rparr>)"
proof (induction k arbitrary: r c buf)
  case 0
  show ?case by (simp add: literal_read_loop.simps)
next
  case (Suc k)
  then obtain c' r' where r: "r = c' # r'" by (cases r) auto
  with Suc.prems have "k \<le> length r'" by simp
  from Suc.IH [OF this, of c' "buf @ [c]"] r show ?case
    by (subst literal_read_loop.simps) (simp add: consume_Cons)
qed

text \<open>
  The same for every literal: after a non-empty run of digits that denotes a number
  \<open>n\<close> of at most \<open>2^31 - 1\<close>, the closing brace, the rest of the line up to its LF
  and a body of at least \<open>n\<close> bytes, the token is the first \<open>n\<close> bytes of the LF
  followed by the body.
\<close>

theorem literal_reads_from_linefeed:
  assumes "skipSpace l = Inr l1" and "current l1 = leftCurly"
    and "reader l1 = ds @ rightCurly # junk @ lf # body"
    and "\<forall>c \<in> set ds. isDigit c" and "ds \<noteq> []" and "decimalValue ds \<le> 2 ^ 31 - 1"
    and "lf \<notin> set junk" and "decimalValue ds \<le> length body"
  shows "lexer_next flag l =
     Inr (\<lparr>tokValue = take (decimalValue ds) (lf # body), tokType = stringTokenType\<rparr>,
          \<lparr>reader = drop (decimalValue ds) body, current = (lf # body) ! decimalValue ds\<rparr>)"
proof -
  obtain c r where cr: "c # r = ds @ rightCurly # junk @ lf # body"
    by (cases ds) auto
  have l1: "l1 = \<lparr>reader = c # r, current = leftCurly\<rparr>"
    using assms(2,3) cr by (cases l1) simp
  have len: "literal_length_loop \<lparr>reader = r, current = c\<rparr> [] =
      Inr (ds, \<lparr>reader = junk @ lf # body, current = rightCurly\<rparr>)"
    using literal_length_loop_digits [OF assms(4) cr, of "[]"] by simp
  have num: "ParseInt_10_32 ds = Inr (int (decimalValue ds))"
    using assms(5,6) by (simp add: ParseInt_10_32_digits [OF assms(4)])
  have eol: "consumeEol \<lparr>reader = junk @ lf # body, current = rightCurly\<rparr> =
      Inr \<lparr>reader = body, current = lf\<rparr>"
    using consumeEol_to_linefeed [of "rightCurly # junk" rightCurly "junk @ lf # body" body]
      assms(7) by simp
  have "literal \<lparr>reader = r, current = c\<rparr> =
     Inr (\<lparr>tokValue = take (decimalValue ds) (lf # body), tokType = stringTokenType\<rparr>,
          \<lparr>reader = drop (decimalValue ds) body, current = (lf # body) ! decimalValue ds\<rparr>)"
    using literal_read_loop_take [OF assms(8), of lf "[]"]
    by (simp add: literal_def len num eol)
  then show ?thesis
    using assms(1) by (simp add: lexer_next_def l1 consume_Cons)
qed

end
